theory Spec2Isabelle
  imports Complex_Main "HOL-Library.Sublist"
begin

section \<open>Python strings\<close>

text \<open>
  A Python \<open>str\<close> is modelled as a \<open>string\<close> of ASCII characters. The three
  string methods the program calls are Python built-ins; they are modelled on the
  ASCII range: \<open>str.lower\<close> maps \<open>A\<close>..\<open>Z\<close> to \<open>a\<close>..\<open>z\<close> and
  leaves every other character alone, and the whitespace of \<open>str.strip\<close> and
  \<open>str.split\<close> is tab, line feed, vertical tab, form feed, carriage return, the
  four separators \<open>0x1C\<close>..\<open>0x1F\<close> and the space.
\<close>

definition lower_char :: "char \<Rightarrow> char" where
  "lower_char c =
     (let n = (of_char c :: nat) in if 65 \<le> n \<and> n \<le> 90 then char_of (n + 32) else c)"

definition py_lower :: "string \<Rightarrow> string" where
  "py_lower s = map lower_char s"

definition is_space :: "char \<Rightarrow> bool" where
  "is_space c = ((of_char c :: nat) \<in> {9, 10, 11, 12, 13, 28, 29, 30, 31, 32})"

text \<open>\<open>s.strip()\<close>: whitespace removed at both ends.\<close>

definition py_strip :: "string \<Rightarrow> string" where
  "py_strip s = rev (dropWhile is_space (rev (dropWhile is_space s)))"

text \<open>
  \<open>s.split(sep)\<close> for a one-character separator: every occurrence of the
  separator ends a piece, so the result is never empty and may hold empty pieces.
\<close>

fun py_split_on :: "char \<Rightarrow> string \<Rightarrow> string list" where
  "py_split_on sep [] = [[]]"
| "py_split_on sep (c # cs) =
     (if c = sep then [] # py_split_on sep cs
      else (case py_split_on sep cs of
              [] \<Rightarrow> [[c]]
            | w # ws \<Rightarrow> (c # w) # ws))"

text \<open>\<open>s.split()\<close>: the maximal runs of non-whitespace characters.\<close>

function py_split :: "string \<Rightarrow> string list" where
  "py_split s =
     (case dropWhile is_space s of
        [] \<Rightarrow> []
      | c # cs \<Rightarrow>
          takeWhile (\<lambda>x. \<not> is_space x) (c # cs) # py_split (dropWhile (\<lambda>x. \<not> is_space x) cs))"
  by pat_completeness auto
termination
proof (relation "measure length")
  show "wf (measure length)" by simp
next
  fix s :: string and c cs
  assume a: "dropWhile is_space s = c # cs"
  have "length (dropWhile (\<lambda>x. \<not> is_space x) cs) \<le> length cs"
    by (rule length_dropWhile_le)
  also have "length cs < length (dropWhile is_space s)" using a by simp
  also have "\<dots> \<le> length s" by (rule length_dropWhile_le)
  finally show "(dropWhile (\<lambda>x. \<not> is_space x) cs, s) \<in> measure length" by simp
qed

declare py_split.simps [simp del]

text \<open>\<open>sep.join(xs)\<close>.\<close>

fun py_join :: "string \<Rightarrow> string list \<Rightarrow> string" where
  "py_join sep [] = []"
| "py_join sep [x] = x"
| "py_join sep (x # y # ys) = x @ sep @ py_join sep (y # ys)"

section \<open>The sentiment dictionary (\<open>pages/1_app.py\<close>)\<close>

text \<open>
  \<open>load_dictionary_from_text\<close>, line 8: the lines of the input that are not
  blank, each stripped and then lowercased.
\<close>

definition dict_lines :: "string \<Rightarrow> string list" where
  "dict_lines dict_text =
     map (\<lambda>line. py_lower (py_strip line))
       (filter (\<lambda>line. py_strip line \<noteq> []) (py_split_on (CHR 0x0A) dict_text))"

text \<open>
  \<open>line.split(',', 1)\<close> on a line that holds a comma: the part before the first
  comma and the part after it.
\<close>

definition split_comma :: "string \<Rightarrow> string \<times> string" where
  "split_comma line =
     (takeWhile (\<lambda>c. c \<noteq> CHR '','') line, tl (dropWhile (\<lambda>c. c \<noteq> CHR '','') line))"

text \<open>The body of the loop of lines 13 to 25, on the two sets built so far.\<close>

definition add_line :: "string \<Rightarrow> string set \<times> string set \<Rightarrow> string set \<times> string set" where
  "add_line line acc =
     (case acc of (positive_words, negative_words) \<Rightarrow>
        if CHR '','' \<in> set line then
          (case split_comma line of (word0, sentiment0) \<Rightarrow>
             let word = py_strip word0; sentiment = py_strip sentiment0 in
             if sentiment \<in> set [''positive'', ''pos'', ''1'']
               then (insert word positive_words, negative_words)
             else if sentiment \<in> set [''negative'', ''neg'', ''0'', ''-1'']
               then (positive_words, insert word negative_words)
             else (positive_words, negative_words))
        else (insert line positive_words, negative_words))"

definition load_dictionary_from_text :: "string \<Rightarrow> string set \<times> string set" where
  "load_dictionary_from_text dict_text = fold add_line (dict_lines dict_text) ({}, {})"

section \<open>Cell values\<close>

text \<open>
  The values a cell of a data frame holds: a string, the missing value \<open>NaN\<close>, a
  truth value, an integer or a finite float. Scores are floats; they are modelled as
  exact reals, so the quotient of two counts is the exact quotient and \<open>0.1\<close> is one
  tenth. Python rounds the quotient to the nearest double, which keeps it between
  \<open>-1\<close> and \<open>1\<close> and changes no comparison with \<open>0.1\<close> or \<open>-0.1\<close>
  unless the text holds more than \<open>10\<^sup>1\<^sup>5\<close> sentiment words.
\<close>

datatype cell = Str string | NaN | Bool bool | Integer int | Float real

datatype py_error = KeyError | AttributeError | TypeError

text \<open>\<open>pd.isna(x)\<close> and the truth value \<open>bool(x)\<close> that \<open>not x\<close> negates.\<close>

fun py_isna :: "cell \<Rightarrow> bool" where
  "py_isna NaN = True"
| "py_isna _ = False"

fun py_truthy :: "cell \<Rightarrow> bool" where
  "py_truthy (Str s) = (s \<noteq> [])"
| "py_truthy NaN = True"
| "py_truthy (Bool b) = b"
| "py_truthy (Integer i) = (i \<noteq> 0)"
| "py_truthy (Float x) = (x \<noteq> 0)"

text \<open>
  \<open>str(x)\<close>. The decimal text of an integer is computed; the text of a float is
  Python's shortest decimal that reads back as the same float, which is not a function
  of this program: it is the parameter \<open>float_repr\<close>.
\<close>

fun nat_str :: "nat \<Rightarrow> string" where
  "nat_str n =
     (if n < 10 then [char_of (48 + n)] else nat_str (n div 10) @ [char_of (48 + n mod 10)])"

declare nat_str.simps [simp del]

definition int_str :: "int \<Rightarrow> string" where
  "int_str i = (if i < 0 then CHR ''-'' # nat_str (nat (- i)) else nat_str (nat i))"

fun py_str :: "(real \<Rightarrow> string) \<Rightarrow> cell \<Rightarrow> string" where
  "py_str float_repr (Str s) = s"
| "py_str float_repr NaN = ''nan''"
| "py_str float_repr (Bool b) = (if b then ''True'' else ''False'')"
| "py_str float_repr (Integer i) = int_str i"
| "py_str float_repr (Float x) = float_repr x"

text \<open>
  Where an example needs a text for floats: that of a float without fractional part,
  such as \<open>1.0\<close>.
\<close>

definition whole_float_repr :: "real \<Rightarrow> string" where
  "whole_float_repr x = int_str (floor x) @ ''.0''"

section \<open>The scorer (\<open>pages/1_app.py\<close>)\<close>

definition continuous_sentiment_score ::
    "(real \<Rightarrow> string) \<Rightarrow> cell \<Rightarrow> string set \<Rightarrow> string set \<Rightarrow> real" where
  "continuous_sentiment_score float_repr text positive_words negative_words =
     (if \<not> py_truthy text \<or> py_isna text then 0
      else
        let words = py_split (py_lower (py_str float_repr text)) in
        if words = [] then 0
        else
          let pos_count = length (filter (\<lambda>word. word \<in> positive_words) words);
              neg_count = length (filter (\<lambda>word. word \<in> negative_words) words);
              total_sentiment_words = pos_count + neg_count
          in if total_sentiment_words = 0 then 0
             else (real pos_count - real neg_count) / real total_sentiment_words)"

text \<open>
  The lambda of line 65, applied to a value of the score column. Python compares an
  integer or a truth value with \<open>0.1\<close> as a number, every comparison with \<open>NaN\<close>
  is false, and a string cannot be compared with a float.
\<close>

definition label_of :: "real \<Rightarrow> string" where
  "label_of x =
     (if x > 1 / 10 then ''Positive'' else if x < - (1 / 10) then ''Negative'' else ''Neutral'')"

fun sentiment_label :: "cell \<Rightarrow> py_error + cell" where
  "sentiment_label (Float x) = Inr (Str (label_of x))"
| "sentiment_label (Integer i) = Inr (Str (label_of (of_int i)))"
| "sentiment_label (Bool b) = Inr (Str (label_of (if b then 1 else 0)))"
| "sentiment_label NaN = Inr (Str ''Neutral'')"
| "sentiment_label (Str s) = Inl TypeError"

section \<open>The classifier (\<open>streamlit_app.py\<close>)\<close>

text \<open>
  A Python \<open>set\<close> of terms that the program iterates over is modelled as the list
  of its elements in iteration order, without duplicates. A Python \<open>dict\<close> is an
  association list in insertion order with distinct keys.
\<close>

type_synonym dictionaries = "(string \<times> string list) list"

definition DEFAULT_DICTIONARIES :: dictionaries where
  "DEFAULT_DICTIONARIES =
     [(''urgency_marketing'',
       [''limited'', ''limited time'', ''limited run'', ''limited edition'', ''order now'',
        ''last chance'', ''hurry'', ''while supplies last'', ''before they'' @ [CHR 0x27] @ ''re gone'',
        ''selling out'', ''selling fast'', ''act now'', ''don'' @ [CHR 0x27] @ ''t wait'', ''today only'',
        ''expires soon'', ''final hours'', ''almost gone'']),
      (''exclusive_marketing'',
       [''exclusive'', ''exclusively'', ''exclusive offer'', ''exclusive deal'',
        ''members only'', ''vip'', ''special access'', ''invitation only'',
        ''premium'', ''privileged'', ''limited access'', ''select customers'',
        ''insider'', ''private sale'', ''early access''])]"

record dict_result =
  count :: nat
  matches :: "string list"
  present :: bool

text \<open>Lines 38 to 47: the result for one dictionary, on the lowercased text.\<close>

definition classify_terms :: "string \<Rightarrow> string list \<Rightarrow> dict_result" where
  "classify_terms text_lower terms =
     (let found = filter (\<lambda>term. sublist (py_lower term) text_lower) terms
      in \<lparr>count = length found, matches = found, present = (length found > 0)\<rparr>)"

text \<open>
  \<open>classify_text\<close>: the empty dict for a missing value, one result for each
  dictionary for a string; any other value has no method \<open>lower\<close>.
\<close>

fun classify_text :: "cell \<Rightarrow> dictionaries \<Rightarrow> py_error + (string \<times> dict_result) list" where
  "classify_text NaN dictionaries = Inr []"
| "classify_text (Str text) dictionaries =
     (let text_lower = py_lower text
      in Inr (map (\<lambda>(dict_name, terms). (dict_name, classify_terms text_lower terms)) dictionaries))"
| "classify_text (Bool b) dictionaries = Inl AttributeError"
| "classify_text (Integer i) dictionaries = Inl AttributeError"
| "classify_text (Float x) dictionaries = Inl AttributeError"

text \<open>
  The three lambdas of lines 62, 65 and 68, which read one row's result with
  defaults: \<open>x.get(dict_name, {}).get(key, default)\<close>.
\<close>

definition get_count :: "(string \<times> dict_result) list \<Rightarrow> string \<Rightarrow> int" where
  "get_count x dict_name = (case map_of x dict_name of None \<Rightarrow> 0 | Some r \<Rightarrow> int (count r))"

definition get_present :: "(string \<times> dict_result) list \<Rightarrow> string \<Rightarrow> bool" where
  "get_present x dict_name = (case map_of x dict_name of None \<Rightarrow> False | Some r \<Rightarrow> present r)"

definition get_matches :: "(string \<times> dict_result) list \<Rightarrow> string \<Rightarrow> string" where
  "get_matches x dict_name =
     py_join '', '' (case map_of x dict_name of None \<Rightarrow> [] | Some r \<Rightarrow> matches r)"

subsection \<open>Editing the dictionaries (\<open>main\<close>, lines 107 to 120)\<close>


text \<open>\<open>d[k] = v\<close> on a dict.\<close>

definition dict_setitem :: "('k \<times> 'v) list \<Rightarrow> 'k \<Rightarrow> 'v \<Rightarrow> ('k \<times> 'v) list" where
  "dict_setitem d k v =
     (if k \<in> fst ` set d then map (\<lambda>(k', v'). if k' = k then (k', v) else (k', v')) d
      else d @ [(k, v)])"



section \<open>Data frames\<close>

text \<open>
  A data frame is its number of rows and its columns in order, each a name and one
  value for every row; the names are distinct, as \<open>read_csv\<close> makes them. Data
  frames are mutable objects: the heap is the list of the frames allocated so far, and
  a reference is an index into it.
\<close>

record dataframe =
  n_rows :: nat
  columns :: "(string \<times> cell list) list"

type_synonym heap = "dataframe list"

text \<open>\<open>df[name]\<close> and \<open>df[name] = values\<close> on a frame.\<close>

definition get_column :: "dataframe \<Rightarrow> string \<Rightarrow> py_error + cell list" where
  "get_column df name =
     (case map_of (columns df) name of None \<Rightarrow> Inl KeyError | Some vs \<Rightarrow> Inr vs)"

definition set_column :: "dataframe \<Rightarrow> string \<Rightarrow> cell list \<Rightarrow> dataframe" where
  "set_column df name vals = df\<lparr>columns := dict_setitem (columns df) name vals\<rparr>"

text \<open>The same through a reference, and \<open>df.copy()\<close>, which allocates.\<close>

definition df_getitem :: "heap \<Rightarrow> nat \<Rightarrow> string \<Rightarrow> py_error + cell list" where
  "df_getitem h r name = get_column (h ! r) name"

definition df_setitem :: "heap \<Rightarrow> nat \<Rightarrow> string \<Rightarrow> cell list \<Rightarrow> heap" where
  "df_setitem h r name vals = h[r := set_column (h ! r) name vals]"

definition df_copy :: "heap \<Rightarrow> nat \<Rightarrow> heap \<times> nat" where
  "df_copy h r = (h @ [h ! r], length h)"

text \<open>\<open>series.apply(f)\<close>: the first exception that \<open>f\<close> raises ends the call.\<close>

fun apply_series :: "('a \<Rightarrow> py_error + 'b) \<Rightarrow> 'a list \<Rightarrow> py_error + 'b list" where
  "apply_series f [] = Inr []"
| "apply_series f (x # xs) =
     (case f x of
        Inl e \<Rightarrow> Inl e
      | Inr y \<Rightarrow> (case apply_series f xs of Inl e \<Rightarrow> Inl e | Inr ys \<Rightarrow> Inr (y # ys)))"

subsection \<open>\<open>process_sentiment_data\<close> (\<open>pages/1_app.py\<close>)\<close>

definition process_sentiment_data ::
    "(real \<Rightarrow> string) \<Rightarrow> heap \<Rightarrow> nat \<Rightarrow> string \<Rightarrow> string set \<Rightarrow> string set \<Rightarrow> py_error + heap \<times> nat" where
  "process_sentiment_data float_repr h df text_column positive_words negative_words =
     (case df_copy h df of (h1, result_df) \<Rightarrow>
      case df_getitem h1 result_df text_column of
        Inl e \<Rightarrow> Inl e
      | Inr texts \<Rightarrow>
          let h2 = df_setitem h1 result_df ''sentiment_score''
                     (map (\<lambda>x. Float (continuous_sentiment_score float_repr x positive_words negative_words)) texts)
          in case df_getitem h2 result_df ''sentiment_score'' of
               Inl e \<Rightarrow> Inl e
             | Inr scores \<Rightarrow>
                 (case apply_series sentiment_label scores of
                    Inl e \<Rightarrow> Inl e
                  | Inr labels \<Rightarrow> Inr (df_setitem h2 result_df ''sentiment_label'' labels, result_df)))"

subsection \<open>\<open>process_dataframe\<close> (\<open>streamlit_app.py\<close>)\<close>

text \<open>The body of the loop of lines 60 to 69: three assignments for one dictionary.\<close>

definition add_result_columns ::
    "(string \<times> dict_result) list list \<Rightarrow> nat \<Rightarrow> string \<Rightarrow> heap \<Rightarrow> heap" where
  "add_result_columns classifications df_results dict_name h =
     (let h1 = df_setitem h df_results (dict_name @ ''_count'')
                 (map (\<lambda>x. Integer (get_count x dict_name)) classifications);
          h2 = df_setitem h1 df_results (dict_name @ ''_present'')
                 (map (\<lambda>x. Bool (get_present x dict_name)) classifications);
          h3 = df_setitem h2 df_results (dict_name @ ''_matches'')
                 (map (\<lambda>x. Str (get_matches x dict_name)) classifications)
      in h3)"

definition process_dataframe ::
    "heap \<Rightarrow> nat \<Rightarrow> string \<Rightarrow> dictionaries \<Rightarrow> py_error + heap \<times> nat" where
  "process_dataframe h df text_column dictionaries =
     (case df_getitem h df text_column of
        Inl e \<Rightarrow> Inl e
      | Inr texts \<Rightarrow>
          (case apply_series (\<lambda>x. classify_text x dictionaries) texts of
             Inl e \<Rightarrow> Inl e
           | Inr classifications \<Rightarrow>
               (case df_copy h df of (h1, df_results) \<Rightarrow>
                  Inr (fold (add_result_columns classifications df_results)
                         (map fst dictionaries) h1, df_results))))"

section \<open>The specification's wording\<close>

text \<open>
  The score as the specification words it: count the tokens of the lowercased text in
  either set, and divide the difference by the sum unless the sum is zero.
\<close>

definition spec_score :: "string \<Rightarrow> string set \<Rightarrow> string set \<Rightarrow> real" where
  "spec_score text positive negative =
     (let tokens = py_split (py_lower text);
          posCount = length (filter (\<lambda>t. t \<in> positive) tokens);
          negCount = length (filter (\<lambda>t. t \<in> negative) tokens)
      in if posCount + negCount = 0 then 0
         else (real posCount - real negCount) / (real posCount + real negCount))"

text \<open>
  The parsing rule as the specification words it: the non-empty trimmed lines; the
  term of a line is the part before the first comma, the tag the part after it, both
  trimmed and lowercased; a line is positive when it has no comma or a positive tag,
  negative when it has a negative tag.
\<close>

definition spec_lines :: "string \<Rightarrow> string list" where
  "spec_lines dict_text =
     filter (\<lambda>l. l \<noteq> []) (map py_strip (py_split_on (CHR 0x0A) dict_text))"

definition spec_term :: "string \<Rightarrow> string" where
  "spec_term l = py_lower (py_strip (takeWhile (\<lambda>c. c \<noteq> CHR '','') l))"

definition spec_tag :: "string \<Rightarrow> string" where
  "spec_tag l = py_lower (py_strip (tl (dropWhile (\<lambda>c. c \<noteq> CHR '','') l)))"

definition spec_is_positive :: "string \<Rightarrow> bool" where
  "spec_is_positive l =
     (CHR '','' \<notin> set l \<or> spec_tag l \<in> {''positive'', ''pos'', ''1''})"

definition spec_is_negative :: "string \<Rightarrow> bool" where
  "spec_is_negative l =
     (CHR '','' \<in> set l \<and> spec_tag l \<in> {''negative'', ''neg'', ''0'', ''-1''})"

definition spec_positive :: "string \<Rightarrow> string set" where
  "spec_positive dict_text =
     {spec_term l | l. l \<in> set (spec_lines dict_text) \<and> spec_is_positive l}"

definition spec_negative :: "string \<Rightarrow> string set" where
  "spec_negative dict_text =
     {spec_term l | l. l \<in> set (spec_lines dict_text) \<and> spec_is_negative l}"

section \<open>Notions for the batch processors and the dictionaries\<close>

text \<open>
  What the batch processor is to leave alone. A frame is well formed when every
  column has one value for each row. \<open>keeps_columns derived df out\<close>: \<open>out\<close>
  has the rows of \<open>df\<close>, and the columns of \<open>df\<close> are the first columns of
  \<open>out\<close>, under the same names and in the same order, each with its values
  unchanged unless its name is one of the \<open>derived\<close> names.
\<close>

definition wf_frame :: "dataframe \<Rightarrow> bool" where
  "wf_frame df = (\<forall>c \<in> set (columns df). length (snd c) = n_rows df)"

definition keeps_columns :: "string set \<Rightarrow> dataframe \<Rightarrow> dataframe \<Rightarrow> bool" where
  "keeps_columns derived df out =
     (n_rows out = n_rows df \<and>
      length (columns df) \<le> length (columns out) \<and>
      (\<forall>i < length (columns df).
         fst (columns out ! i) = fst (columns df ! i) \<and>
         (fst (columns df ! i) \<notin> derived \<longrightarrow> columns out ! i = columns df ! i)))"

text \<open>The names of the columns that \<open>process_dataframe\<close> assigns.\<close>

definition derived_names :: "string list \<Rightarrow> string set" where
  "derived_names dict_names =
     (\<Union>d \<in> set dict_names. {d @ ''_count'', d @ ''_present'', d @ ''_matches''})"

text \<open>
  The three assignments of \<open>add_result_columns\<close> seen on the frame that the
  reference \<open>df_results\<close> points to.
\<close>

definition result_columns ::
    "(string \<times> dict_result) list list \<Rightarrow> string \<Rightarrow> dataframe \<Rightarrow> dataframe" where
  "result_columns classifications dict_name df =
     set_column
       (set_column
          (set_column df (dict_name @ ''_count'')
             (map (\<lambda>x. Integer (get_count x dict_name)) classifications))
          (dict_name @ ''_present'')
          (map (\<lambda>x. Bool (get_present x dict_name)) classifications))
       (dict_name @ ''_matches'')
       (map (\<lambda>x. Str (get_matches x dict_name)) classifications)"

text \<open>
  The frame that \<open>process_sentiment_data\<close> leaves behind its reference
  \<open>result_df\<close>: the copy with the two assignments made.
\<close>

definition scored_frame ::
    "(real \<Rightarrow> string) \<Rightarrow> dataframe \<Rightarrow> cell list \<Rightarrow> string set \<Rightarrow> string set \<Rightarrow> dataframe" where
  "scored_frame float_repr df texts positive_words negative_words =
     set_column
       (set_column df ''sentiment_score''
          (map (\<lambda>x. Float (continuous_sentiment_score float_repr x positive_words negative_words)) texts))
       ''sentiment_label''
       (map (\<lambda>x. Str (label_of (continuous_sentiment_score float_repr x positive_words negative_words))) texts)"


section \<open>Properties of the string operations and of the loader\<close>

subsection \<open>Characters\<close>

lemma of_char_lower_char:
  "(of_char (lower_char c) :: nat) =
     (if 65 \<le> (of_char c :: nat) \<and> (of_char c :: nat) \<le> 90 then of_char c + 32 else of_char c)"
  by (simp add: lower_char_def Let_def)


lemma is_space_lower_char: "is_space (lower_char c) = is_space c"
  by (auto simp add: is_space_def of_char_lower_char)

lemma lower_char_comma: "(lower_char c = CHR '','') = (c = CHR '','')"
proof -
  have "((of_char (lower_char c) :: nat) = of_char (CHR '','')) = ((of_char c :: nat) = of_char (CHR '',''))"
    by (auto simp add: of_char_lower_char)
  then show ?thesis by (simp only: of_char_eq_iff)
qed

subsection \<open>Lowercasing and stripping\<close>


lemma py_strip_lower: "py_strip (py_lower s) = py_lower (py_strip s)"
proof -
  have d: "dropWhile is_space (map lower_char xs) = map lower_char (dropWhile is_space xs)" for xs
    by (simp add: dropWhile_map comp_def is_space_lower_char)
  have "py_strip (map lower_char s) =
          rev (dropWhile is_space (map lower_char (rev (dropWhile is_space s))))"
    by (simp only: py_strip_def d rev_map)
  also have "\<dots> = map lower_char (py_strip s)"
    by (simp only: py_strip_def d rev_map)
  finally show ?thesis by (simp only: py_lower_def)
qed

lemma dropWhile_lstripped:
  "dropWhile is_space (rev (dropWhile is_space (rev (dropWhile is_space s)))) =
     rev (dropWhile is_space (rev (dropWhile is_space s)))"
proof -
  define a where "a = dropWhile is_space s"
  define b where "b = rev (dropWhile is_space (rev a))"
  have "rev a = takeWhile is_space (rev a) @ dropWhile is_space (rev a)" by simp
  then have "a = b @ rev (takeWhile is_space (rev a))"
    unfolding b_def by (metis rev_append rev_rev_ident)
  then obtain c where ab: "a = b @ c" ..
  have "dropWhile is_space b = b"
  proof (cases b)
    case Nil
    then show ?thesis by simp
  next
    case (Cons x xs)
    with ab have "a = x # (xs @ c)" by simp
    then have "\<not> is_space x" unfolding a_def
      by (metis hd_dropWhile list.sel(1) list.distinct(1))
    with Cons show ?thesis by simp
  qed
  then show ?thesis unfolding a_def b_def .
qed

lemma py_strip_idem: "py_strip (py_strip s) = py_strip s"
  by (simp add: py_strip_def dropWhile_lstripped)

subsection \<open>The loader computes the sets of the specification\<close>

lemma takeWhile_comma_lower:
  "takeWhile (\<lambda>c. c \<noteq> CHR '','') (py_lower s) = py_lower (takeWhile (\<lambda>c. c \<noteq> CHR '','') s)"
  by (simp add: py_lower_def takeWhile_map comp_def lower_char_comma)

lemma dropWhile_comma_lower:
  "dropWhile (\<lambda>c. c \<noteq> CHR '','') (py_lower s) = py_lower (dropWhile (\<lambda>c. c \<noteq> CHR '','') s)"
  by (simp add: py_lower_def dropWhile_map comp_def lower_char_comma)

lemma comma_in_lower: "(CHR '','' \<in> set (py_lower s)) = (CHR '','' \<in> set s)"
proof -
  have "(CHR '','' \<in> lower_char ` set s) = (\<exists>x \<in> set s. lower_char x = CHR '','')"
    by (metis (no_types) image_iff)
  then show ?thesis
    by (simp add: py_lower_def lower_char_comma)
qed

lemma split_comma_lower:
  "split_comma (py_lower l) =
     (py_lower (takeWhile (\<lambda>c. c \<noteq> CHR '','') l), py_lower (tl (dropWhile (\<lambda>c. c \<noteq> CHR '','') l)))"
  by (simp add: split_comma_def takeWhile_comma_lower dropWhile_comma_lower)
     (simp add: py_lower_def map_tl)

lemma takeWhile_no_comma: "CHR '','' \<notin> set l \<Longrightarrow> takeWhile (\<lambda>c. c \<noteq> CHR '','') l = l"
  by (rule takeWhile_eq_all_conv [THEN iffD2]) auto

lemma spec_negative_not_positive: "spec_is_negative l \<Longrightarrow> \<not> spec_is_positive l"
  by (auto simp add: spec_is_negative_def spec_is_positive_def)

text \<open>What one pass of the loop body does to a line \<open>py_lower l\<close> with \<open>l\<close> trimmed.\<close>

lemma add_line_lower:
  assumes "py_strip l = l"
  shows "add_line (py_lower l) (P, N) =
     (if spec_is_positive l then (insert (spec_term l) P, N)
      else if spec_is_negative l then (P, insert (spec_term l) N)
      else (P, N))"
proof (cases "CHR '','' \<in> set l")
  case True
  then show ?thesis
    by (simp add: add_line_def comma_in_lower split_comma_lower Let_def spec_tag_def
        spec_term_def py_strip_lower spec_is_positive_def spec_is_negative_def)
next
  case False
  then show ?thesis
    using assms
    by (simp add: add_line_def comma_in_lower spec_term_def takeWhile_no_comma
        spec_is_positive_def)
qed

lemma fold_add_line:
  assumes "\<forall>l \<in> set ls. py_strip l = l"
  shows "fold add_line (map py_lower ls) (P, N) =
     (P \<union> {spec_term l | l. l \<in> set ls \<and> spec_is_positive l},
      N \<union> {spec_term l | l. l \<in> set ls \<and> spec_is_negative l})"
  using assms
proof (induction ls arbitrary: P N)
  case Nil
  then show ?case by simp
next
  case (Cons l ls)
  have l: "py_strip l = l" using Cons.prems by simp
  have ls: "\<forall>l \<in> set ls. py_strip l = l" using Cons.prems by simp
  show ?case
    using spec_negative_not_positive [of l]
    by (simp only: list.map fold_simps add_line_lower [OF l] Cons.IH [OF ls] split: if_split)
       auto
qed

lemma dict_lines_spec: "dict_lines t = map py_lower (spec_lines t)"
proof -
  have "filter (\<lambda>l. l \<noteq> []) (map py_strip xs) = map py_strip (filter (\<lambda>l. py_strip l \<noteq> []) xs)" for xs
    by (induction xs) auto
  then show ?thesis
    by (simp add: dict_lines_def spec_lines_def comp_def)
qed

lemma spec_lines_trimmed: "l \<in> set (spec_lines t) \<Longrightarrow> py_strip l = l \<and> l \<noteq> []"
  by (auto simp add: spec_lines_def py_strip_idem)

lemma load_dictionary_from_text_spec:
  "load_dictionary_from_text t = (spec_positive t, spec_negative t)"
proof -
  have "\<forall>l \<in> set (spec_lines t). py_strip l = l"
    by (simp add: spec_lines_trimmed)
  then show ?thesis
    by (simp add: load_dictionary_from_text_def dict_lines_spec fold_add_line
        spec_positive_def spec_negative_def)
qed

section \<open>The sentiment score\<close>

lemma py_split_Nil: "py_split [] = []"
  by (simp add: py_split.simps)

lemma score_Str: "continuous_sentiment_score fr (Str s) P N = spec_score s P N"
  by (cases s)
     (simp_all add: continuous_sentiment_score_def spec_score_def Let_def py_lower_def py_split_Nil)

lemma quotient_range:
  fixes p n :: nat
  assumes "p + n \<noteq> 0"
  shows "- 1 \<le> (real p - real n) / real (p + n) \<and> (real p - real n) / real (p + n) \<le> 1"
proof -
  have "0 < p + n" using assms by simp
  then have pos: "0 < real (p + n)" by (simp only: of_nat_0_less_iff)
  have "- real (p + n) \<le> real p - real n" by simp
  then have lo: "- 1 \<le> (real p - real n) / real (p + n)"
    using pos by (simp add: pos_le_divide_eq)
  have "real p - real n \<le> real (p + n)" by simp
  then have hi: "(real p - real n) / real (p + n) \<le> 1"
    using pos by (simp add: pos_divide_le_eq)
  from lo hi show ?thesis by simp
qed

lemma score_range:
  "- 1 \<le> continuous_sentiment_score fr x P N \<and> continuous_sentiment_score fr x P N \<le> 1"
  unfolding continuous_sentiment_score_def Let_def
  using quotient_range by auto

lemma score_example:
  "continuous_sentiment_score fr (Str ''good bad bad'') {''good'', ''great''} {''bad''} = - (1 / 3)"
proof -
  have "py_split (py_lower ''good bad bad'') = [''good'', ''bad'', ''bad'']" by code_simp
  then show ?thesis by (simp add: continuous_sentiment_score_def)
qed

text \<open>
  Claim C1. For every text and every pair of term sets, the score that
  \<open>continuous_sentiment_score\<close> returns is the score of the specification: with
  \<open>posCount\<close> and \<open>negCount\<close> the numbers of whitespace-separated tokens of the
  lowercased text in the positive and in the negative set, it is \<open>0\<close> when
  \<open>posCount + negCount = 0\<close> and \<open>(posCount - negCount) / (posCount + negCount)\<close>
  otherwise. Whatever the cell holds, the score lies between \<open>-1\<close> and \<open>1\<close>. For
  the sets \<open>{good, great}\<close> and \<open>{bad}\<close> the text \<open>good bad bad\<close> scores
  \<open>(1 - 2) / 3\<close>.
\<close>

theorem sentiment_score_formula_and_range:
  "continuous_sentiment_score fr (Str text) P N = spec_score text P N \<and>
   - 1 \<le> continuous_sentiment_score fr x P N \<and>
   continuous_sentiment_score fr x P N \<le> 1 \<and>
   continuous_sentiment_score fr (Str ''good bad bad'') {''good'', ''great''} {''bad''} = - (1 / 3)"
  using score_Str score_range score_example by simp

theorem sentiment_score_formula_and_range_witness:
  "continuous_sentiment_score whole_float_repr (Str ''Great GOOD bad'') {''good'', ''great''} {''bad''}
     = spec_score ''Great GOOD bad'' {''good'', ''great''} {''bad''} \<and>
   spec_score ''Great GOOD bad'' {''good'', ''great''} {''bad''} = 1 / 3 \<and>
   - 1 \<le> continuous_sentiment_score whole_float_repr (Bool True) {''true''} {} \<and>
   continuous_sentiment_score whole_float_repr (Bool True) {''true''} {} \<le> 1"
proof -
  have "py_split (py_lower ''Great GOOD bad'') = [''great'', ''good'', ''bad'']" by code_simp
  then have "spec_score ''Great GOOD bad'' {''good'', ''great''} {''bad''} = 1 / 3"
    by (simp add: spec_score_def)
  then show ?thesis
    using sentiment_score_formula_and_range
      [of whole_float_repr "''Great GOOD bad''" "{''good'', ''great''}" "{''bad''}" "Bool True"]
      sentiment_score_formula_and_range [of whole_float_repr "[]" "{''true''}" "{}" "Bool True"]
    by simp
qed

section \<open>Parsing the sentiment dictionary\<close>

text \<open>
  Claim C4. \<open>load_dictionary_from_text\<close> returns the two sets of the
  specification's parsing rule: over the non-empty trimmed lines of the input, the
  positive set holds the terms of the lines with no comma or with a tag among
  \<open>positive\<close>, \<open>pos\<close>, \<open>1\<close>, the negative set the terms of the lines with a
  tag among \<open>negative\<close>, \<open>neg\<close>, \<open>0\<close>, \<open>-1\<close>, and a line with any other
  tag adds to neither; blank lines count for nothing. The four lines of the
  specification's example parse as it says.
\<close>

theorem parse_builds_specified_sets:
  "load_dictionary_from_text dict_text = (spec_positive dict_text, spec_negative dict_text) \<and>
   load_dictionary_from_text ''great,positive'' = ({''great''}, {}) \<and>
   load_dictionary_from_text ''meh'' = ({''meh''}, {}) \<and>
   load_dictionary_from_text ''awful,negative'' = ({}, {''awful''}) \<and>
   load_dictionary_from_text ''x,maybe'' = ({}, {}) \<and>
   load_dictionary_from_text ([CHR 0x0A] @ ''  '' @ [CHR 0x0A] @ '' Great , POS '' @ [CHR 0x0A, CHR 0x0A] @ ''Bad,-1'')
     = ({''great''}, {''bad''})"
proof -
  have 1: "load_dictionary_from_text ''great,positive'' = ({''great''}, {})" by code_simp
  have 2: "load_dictionary_from_text ''meh'' = ({''meh''}, {})" by code_simp
  have 3: "load_dictionary_from_text ''awful,negative'' = ({}, {''awful''})" by code_simp
  have 4: "load_dictionary_from_text ''x,maybe'' = ({}, {})" by code_simp
  have 5: "load_dictionary_from_text ([CHR 0x0A] @ ''  '' @ [CHR 0x0A] @ '' Great , POS '' @ [CHR 0x0A, CHR 0x0A] @ ''Bad,-1'')
     = ({''great''}, {''bad''})" by code_simp
  from 1 2 3 4 5 show ?thesis by (simp only: load_dictionary_from_text_spec simp_thms)
qed

theorem parse_builds_specified_sets_witness:
  "(spec_positive ''Good,1'', spec_negative ''Good,1'') = ({''good''}, {})"
proof -
  have "load_dictionary_from_text ''Good,1'' = ({''good''}, {})" by code_simp
  then show ?thesis
    using parse_builds_specified_sets [of "''Good,1''"] by simp
qed

text \<open>
  Claim C7, as stated, fails: a term that the input tags positive on one line and
  negative on another is stored in both sets.
\<close>

theorem positive_negative_overlap_counterexample:
  "load_dictionary_from_text (''good,positive'' @ [CHR 0x0A] @ ''good,negative'')
     = ({''good''}, {''good''}) \<and>
   fst (load_dictionary_from_text (''good,positive'' @ [CHR 0x0A] @ ''good,negative''))
     \<inter> snd (load_dictionary_from_text (''good,positive'' @ [CHR 0x0A] @ ''good,negative'')) \<noteq> {}"
proof -
  have "load_dictionary_from_text (''good,positive'' @ [CHR 0x0A] @ ''good,negative'')
     = ({''good''}, {''good''})"
    by code_simp
  then show ?thesis by simp
qed

text \<open>
  Claim C7, amended. The positive and the negative set of one load are disjoint
  exactly when no term of the input is given both by a positive line (no comma, or a
  tag among \<open>positive\<close>, \<open>pos\<close>, \<open>1\<close>) and by a negative line (a tag among
  \<open>negative\<close>, \<open>neg\<close>, \<open>0\<close>, \<open>-1\<close>).
\<close>

theorem positive_negative_disjoint_iff:
  "(fst (load_dictionary_from_text dict_text) \<inter> snd (load_dictionary_from_text dict_text) = {})
     = (\<forall>l1 \<in> set (spec_lines dict_text). \<forall>l2 \<in> set (spec_lines dict_text).
          spec_is_positive l1 \<and> spec_is_negative l2 \<longrightarrow> spec_term l1 \<noteq> spec_term l2)"
  by (simp add: load_dictionary_from_text_spec spec_positive_def spec_negative_def) blast

theorem positive_negative_disjoint_iff_witness:
  "spec_lines (''good,positive'' @ [CHR 0x0A] @ ''bad,negative'') = [''good,positive'', ''bad,negative''] \<and>
   spec_is_positive ''good,positive'' \<and> spec_is_negative ''bad,negative'' \<and>
   spec_term ''good,positive'' \<noteq> spec_term ''bad,negative'' \<and>
   fst (load_dictionary_from_text (''good,positive'' @ [CHR 0x0A] @ ''bad,negative''))
     \<inter> snd (load_dictionary_from_text (''good,positive'' @ [CHR 0x0A] @ ''bad,negative'')) = {}"
proof -
  let ?t = "''good,positive'' @ [CHR 0x0A] @ ''bad,negative''"
  have lines: "spec_lines ?t = [''good,positive'', ''bad,negative'']"
    by code_simp
  have p: "spec_is_positive ''good,positive''" "\<not> spec_is_negative ''good,positive''"
    "spec_is_negative ''bad,negative''" "\<not> spec_is_positive ''bad,negative''"
    by code_simp+
  have t: "spec_term ''good,positive'' \<noteq> spec_term ''bad,negative''"
    by code_simp
  show ?thesis
    using positive_negative_disjoint_iff [of ?t] lines p t by simp
qed

section \<open>The classifier on a string\<close>

lemma map_of_classified:
  assumes "distinct (map fst dictionaries)" and "(dict_name, terms) \<in> set dictionaries"
  shows "map_of (map (\<lambda>(dict_name, terms). (dict_name, f terms)) dictionaries) dict_name
           = Some (f terms)"
proof -
  have "map_of dictionaries dict_name = Some terms"
    using assms by (rule map_of_is_SomeI)
  then show ?thesis
    by (simp add: map_of_map)
qed

lemma classify_text_Str:
  assumes "distinct (map fst dictionaries)" and "(dict_name, terms) \<in> set dictionaries"
  shows "\<exists>results. classify_text (Str text) dictionaries = Inr results \<and>
           map_of results dict_name = Some (classify_terms (py_lower text) terms)"
  using map_of_classified [OF assms, of "classify_terms (py_lower text)"]
  by (simp add: Let_def)

lemma count_classify_terms:
  assumes "distinct terms"
  shows "count (classify_terms text_lower terms)
           = card {term \<in> set terms. sublist (py_lower term) text_lower}"
proof -
  have "{term \<in> set terms. sublist (py_lower term) text_lower}
          = {term. sublist (py_lower term) text_lower} \<inter> set terms"
    by auto
  then show ?thesis
    using distinct_length_filter [OF assms, of "\<lambda>term. sublist (py_lower term) text_lower"]
    by (simp add: classify_terms_def Let_def)
qed

lemma classify_vip_example:
  "classify_text (Str ''Exclusive deal for VIP members'') [(''exclusive_marketing'', [''vip''])]
     = Inr [(''exclusive_marketing'', \<lparr>count = 1, matches = [''vip''], present = True\<rparr>)]"
proof -
  have "sublist (py_lower ''vip'') (py_lower ''Exclusive deal for VIP members'')"
    by code_simp
  then show ?thesis
    by (simp add: classify_terms_def)
qed

text \<open>
  Claim C3. For every string and every dictionary of the input, the result of
  \<open>classify_text\<close> for that dictionary has as \<open>count\<close> the number of distinct
  terms of the dictionary whose lowercase form is a substring of the lowercased text
  (each term once, however often it occurs), as \<open>matches\<close> exactly those terms, and
  \<open>present\<close> holds if and only if \<open>count > 0\<close>. For the dictionary \<open>{vip}\<close>
  and the text \<open>Exclusive deal for VIP members\<close> the count is 1, \<open>present\<close> is
  true and \<open>matches\<close> is \<open>[vip]\<close>.
\<close>

theorem classifier_counts_distinct_matching_terms:
  assumes "distinct (map fst dictionaries)"
    and "(dict_name, terms) \<in> set dictionaries"
    and "distinct terms"
  shows "(\<exists>results r.
            classify_text (Str text) dictionaries = Inr results \<and>
            map_of results dict_name = Some r \<and>
            count r = card {term \<in> set terms. sublist (py_lower term) (py_lower text)} \<and>
            set (matches r) = {term \<in> set terms. sublist (py_lower term) (py_lower text)} \<and>
            distinct (matches r) \<and>
            present r = (count r > 0)) \<and>
         classify_text (Str ''Exclusive deal for VIP members'') [(''exclusive_marketing'', [''vip''])]
           = Inr [(''exclusive_marketing'', \<lparr>count = 1, matches = [''vip''], present = True\<rparr>)]"
proof -
  obtain results where r: "classify_text (Str text) dictionaries = Inr results"
    "map_of results dict_name = Some (classify_terms (py_lower text) terms)"
    using classify_text_Str [OF assms(1,2)] by blast
  let ?r = "classify_terms (py_lower text) terms"
  have c: "count ?r = card {term \<in> set terms. sublist (py_lower term) (py_lower text)}"
    using assms(3) by (rule count_classify_terms)
  have m: "set (matches ?r) = {term \<in> set terms. sublist (py_lower term) (py_lower text)}"
    by (auto simp add: classify_terms_def Let_def)
  have d: "distinct (matches ?r)"
    using assms(3) by (simp add: classify_terms_def Let_def)
  have p: "present ?r = (count ?r > 0)"
    by (simp add: classify_terms_def Let_def)
  show ?thesis
    using r c m d p classify_vip_example by (intro conjI exI) assumption+
qed

theorem classifier_counts_distinct_matching_terms_witness:
  "distinct (map fst DEFAULT_DICTIONARIES) \<and>
   (''urgency_marketing'', [''limited'', ''limited time'', ''hurry'']) \<in>
       set [(''urgency_marketing'', [''limited'', ''limited time'', ''hurry''])] \<and>
   (\<exists>results r.
      classify_text (Str ''Limited time: LIMITED stock, limited seats'')
          [(''urgency_marketing'', [''limited'', ''limited time'', ''hurry''])] = Inr results \<and>
      map_of results ''urgency_marketing'' = Some r \<and>
      count r = 2 \<and> set (matches r) = {''limited'', ''limited time''} \<and> present r)"
proof -
  let ?d = "[(''urgency_marketing'', [''limited'', ''limited time'', ''hurry''])]"
  let ?t = "''Limited time: LIMITED stock, limited seats''"
  have k: "distinct (map fst DEFAULT_DICTIONARIES)" by (simp add: DEFAULT_DICTIONARIES_def)
  have s: "{term \<in> set [''limited'', ''limited time'', ''hurry'']. sublist (py_lower term) (py_lower ?t)}
             = {''limited'', ''limited time''}"
  proof -
    have "sublist (py_lower ''limited'') (py_lower ?t)" 
      "sublist (py_lower ''limited time'') (py_lower ?t)"
      "\<not> sublist (py_lower ''hurry'') (py_lower ?t)"
      by code_simp+
    then show ?thesis by auto
  qed
  have "distinct (map fst ?d)" "(''urgency_marketing'', [''limited'', ''limited time'', ''hurry'']) \<in> set ?d"
    "distinct [''limited'', ''limited time'', ''hurry'']"
    by simp_all
  from classifier_counts_distinct_matching_terms [OF this, of ?t]
  obtain results r where r: "classify_text (Str ?t) ?d = Inr results"
    "map_of results ''urgency_marketing'' = Some r"
    "count r = card {term \<in> set [''limited'', ''limited time'', ''hurry''].
                      sublist (py_lower term) (py_lower ?t)}"
    "set (matches r) = {term \<in> set [''limited'', ''limited time'', ''hurry''].
                      sublist (py_lower term) (py_lower ?t)}"
    "present r = (count r > 0)"
    by (elim conjE exE) (rule that, assumption+)
  have c: "count r = 2" using r(3) by (simp only: s) simp
  have m: "set (matches r) = {''limited'', ''limited time''}" using r(4) by (simp only: s)
  have p: "present r" using r(5) c by simp
  have e: "(''urgency_marketing'', [''limited'', ''limited time'', ''hurry'']) \<in> set ?d" by simp
  show ?thesis
    using k e r(1,2) c m p by (intro conjI exI) assumption+
qed

lemma classify_terms_recased:
  assumes "map py_lower terms' = map py_lower terms"
  shows "count (classify_terms text_lower terms') = count (classify_terms text_lower terms) \<and>
         present (classify_terms text_lower terms') = present (classify_terms text_lower terms) \<and>
         map py_lower (matches (classify_terms text_lower terms'))
           = map py_lower (matches (classify_terms text_lower terms))"
proof -
  have f: "map py_lower (filter (\<lambda>term. sublist (py_lower term) text_lower) xs)
             = filter (\<lambda>l. sublist l text_lower) (map py_lower xs)" for xs
    by (simp add: filter_map comp_def)
  have m: "map py_lower (filter (\<lambda>term. sublist (py_lower term) text_lower) terms')
             = map py_lower (filter (\<lambda>term. sublist (py_lower term) text_lower) terms)"
    by (simp only: f assms)
  from m have "length (map py_lower (filter (\<lambda>term. sublist (py_lower term) text_lower) terms'))
             = length (map py_lower (filter (\<lambda>term. sublist (py_lower term) text_lower) terms))"
    by (rule arg_cong)
  then have l: "length (filter (\<lambda>term. sublist (py_lower term) text_lower) terms')
             = length (filter (\<lambda>term. sublist (py_lower term) text_lower) terms)"
    by (simp only: length_map)
  from l have e: "(filter (\<lambda>term. sublist (py_lower term) text_lower) terms' = [])
             = (filter (\<lambda>term. sublist (py_lower term) text_lower) terms = [])"
    by (simp only: length_0_conv [symmetric])
  show ?thesis
    using m l e by (simp add: classify_terms_def Let_def)
qed

lemma classify_upper_example:
  "classify_text (Str ''Join our vip list'') [(''exclusive_marketing'', [''VIP'', ''Premium''])]
     = Inr [(''exclusive_marketing'', \<lparr>count = 1, matches = [''VIP''], present = True\<rparr>)]"
proof -
  have "sublist (py_lower ''VIP'') (py_lower ''Join our vip list'')"
    "\<not> sublist (py_lower ''Premium'') (py_lower ''Join our vip list'')"
    by code_simp+
  then show ?thesis
    by (simp add: classify_terms_def)
qed

text \<open>
  Claim C10. The classifier lowercases each term when it matches it: the matches of
  a dictionary are its terms, as stored, whose lowercase form occurs in the lowercased
  text, so storing the terms in another casing changes neither the count nor
  \<open>present\<close> nor which terms match, only the casing in which \<open>matches\<close> reports
  them. The dictionary \<open>{VIP, Premium}\<close> matches \<open>Join our vip list\<close> and
  reports \<open>VIP\<close>.
\<close>

theorem classifier_lowercases_terms_at_match_time:
  assumes "distinct (map fst dictionaries)"
    and "(dict_name, terms) \<in> set dictionaries"
  shows "(\<exists>results r.
            classify_text (Str text) dictionaries = Inr results \<and>
            map_of results dict_name = Some r \<and>
            matches r = filter (\<lambda>term. sublist (py_lower term) (py_lower text)) terms \<and>
            (\<forall>terms'. map py_lower terms' = map py_lower terms \<longrightarrow>
               count (classify_terms (py_lower text) terms') = count r \<and>
               present (classify_terms (py_lower text) terms') = present r \<and>
               map py_lower (matches (classify_terms (py_lower text) terms'))
                 = map py_lower (matches r))) \<and>
         classify_text (Str ''Join our vip list'') [(''exclusive_marketing'', [''VIP'', ''Premium''])]
           = Inr [(''exclusive_marketing'', \<lparr>count = 1, matches = [''VIP''], present = True\<rparr>)]"
proof -
  obtain results where r: "classify_text (Str text) dictionaries = Inr results"
    "map_of results dict_name = Some (classify_terms (py_lower text) terms)"
    using classify_text_Str [OF assms(1,2)] by blast
  let ?r = "classify_terms (py_lower text) terms"
  have m: "matches ?r = filter (\<lambda>term. sublist (py_lower term) (py_lower text)) terms"
    by (simp add: classify_terms_def Let_def)
  have c: "\<forall>terms'. map py_lower terms' = map py_lower terms \<longrightarrow>
               count (classify_terms (py_lower text) terms') = count ?r \<and>
               present (classify_terms (py_lower text) terms') = present ?r \<and>
               map py_lower (matches (classify_terms (py_lower text) terms'))
                 = map py_lower (matches ?r)"
    using classify_terms_recased by blast
  show ?thesis
    using r m c classify_upper_example by (intro conjI exI) assumption+
qed

theorem classifier_lowercases_terms_at_match_time_witness:
  "distinct (map fst [(''exclusive_marketing'', [''VIP'', ''Premium''])]) \<and>
   (''exclusive_marketing'', [''VIP'', ''Premium'']) \<in> set [(''exclusive_marketing'', [''VIP'', ''Premium''])] \<and>
   map py_lower [''vip'', ''PREMIUM''] = map py_lower [''VIP'', ''Premium''] \<and>
   matches (classify_terms (py_lower ''Join our VIP list'') [''VIP'', ''Premium'']) = [''VIP''] \<and>
   matches (classify_terms (py_lower ''Join our VIP list'') [''vip'', ''PREMIUM'']) = [''vip''] \<and>
   count (classify_terms (py_lower ''Join our VIP list'') [''vip'', ''PREMIUM'']) = 1"
proof -
  let ?d = "[(''exclusive_marketing'', [''VIP'', ''Premium''])]"
  let ?t = "''Join our VIP list''"
  have a: "distinct (map fst ?d)" "(''exclusive_marketing'', [''VIP'', ''Premium'']) \<in> set ?d"
    by simp_all
  have e: "map py_lower [''vip'', ''PREMIUM''] = map py_lower [''VIP'', ''Premium'']"
    by code_simp
  have s: "sublist (py_lower ''VIP'') (py_lower ?t)" "\<not> sublist (py_lower ''Premium'') (py_lower ?t)"
    "sublist (py_lower ''vip'') (py_lower ?t)" "\<not> sublist (py_lower ''PREMIUM'') (py_lower ?t)"
    by code_simp+
  have f: "filter (\<lambda>term. sublist (py_lower term) (py_lower ?t)) [''VIP'', ''Premium''] = [''VIP'']"
    using s by simp
  have m1: "matches (classify_terms (py_lower ?t) [''VIP'', ''Premium'']) = [''VIP'']"
    using s by (simp add: classify_terms_def)
  have m2: "matches (classify_terms (py_lower ?t) [''vip'', ''PREMIUM'']) = [''vip'']"
    using s by (simp add: classify_terms_def)
  from classifier_lowercases_terms_at_match_time [OF a, of ?t]
  obtain results r where r: "map_of results ''exclusive_marketing'' = Some r"
    "classify_text (Str ?t) ?d = Inr results"
    "matches r = filter (\<lambda>term. sublist (py_lower term) (py_lower ?t)) [''VIP'', ''Premium'']"
    "\<forall>terms'. map py_lower terms' = map py_lower [''VIP'', ''Premium''] \<longrightarrow>
               count (classify_terms (py_lower ?t) terms') = count r \<and>
               present (classify_terms (py_lower ?t) terms') = present r \<and>
               map py_lower (matches (classify_terms (py_lower ?t) terms'))
                 = map py_lower (matches r)"
    by (elim conjE exE) (rule that, assumption+)
  have "r = classify_terms (py_lower ?t) [''VIP'', ''Premium'']"
    using r(1,2) by (auto simp add: Let_def)
  then have "count r = 1" using s by (simp add: classify_terms_def)
  moreover have "count (classify_terms (py_lower ?t) [''vip'', ''PREMIUM'']) = count r"
    using r(4) e by blast
  ultimately have c: "count (classify_terms (py_lower ?t) [''vip'', ''PREMIUM'']) = 1" by simp
  show ?thesis
    using a e m1 m2 c by (intro conjI) assumption+
qed

section \<open>Assignments, frames and \<open>apply\<close>\<close>

subsection \<open>Assignment to a key\<close>

lemma map_of_replaced_other:
  "k' \<noteq> k \<Longrightarrow>
     map_of (map (\<lambda>(k', v'). if k' = k then (k', v) else (k', v')) d) k' = map_of d k'"
  by (induction d) auto

lemma map_of_replaced_same:
  "k \<in> fst ` set d \<Longrightarrow>
     map_of (map (\<lambda>(k', v'). if k' = k then (k', v) else (k', v')) d) k = Some v"
  by (induction d) auto

lemma map_of_dict_setitem: "map_of (dict_setitem d k v) = (map_of d)(k \<mapsto> v)"
proof (cases "k \<in> fst ` set d")
  case True
  then show ?thesis
    by (auto simp add: dict_setitem_def fun_eq_iff map_of_replaced_other map_of_replaced_same)
next
  case False
  then have "map_of d k = None" by (simp add: map_of_eq_None_iff)
  with False show ?thesis
    by (auto simp add: dict_setitem_def map_add_def fun_eq_iff split: option.splits)
qed

lemma length_dict_setitem: "length d \<le> length (dict_setitem d k v)"
  by (simp add: dict_setitem_def)

lemma nth_dict_setitem:
  assumes "i < length d"
  shows "fst (dict_setitem d k v ! i) = fst (d ! i) \<and>
         (fst (d ! i) \<noteq> k \<longrightarrow> dict_setitem d k v ! i = d ! i)"
  using assms by (auto simp add: dict_setitem_def nth_append split: prod.splits)

lemma dict_setitem_new: "k \<notin> fst ` set d \<Longrightarrow> dict_setitem d k v = d @ [(k, v)]"
  by (simp add: dict_setitem_def)

lemma set_dict_setitem:
  "c \<in> set (dict_setitem d k v) \<Longrightarrow> c \<in> set d \<or> c = (k, v)"
  by (auto simp add: dict_setitem_def split: if_splits)

subsection \<open>Columns of a frame\<close>

lemma get_set_column:
  "get_column (set_column df name vals) name' =
     (if name' = name then Inr vals else get_column df name')"
  by (simp add: get_column_def set_column_def map_of_dict_setitem)

lemma keeps_columns_refl: "keeps_columns D df df"
  by (simp add: keeps_columns_def)

lemma keeps_columns_set_column:
  assumes "keeps_columns D df out" and "name \<in> D"
  shows "keeps_columns D df (set_column out name vals)"
proof -
  have len: "length (columns df) \<le> length (columns out)"
    and rows: "n_rows out = n_rows df"
    and cols: "\<And>i. i < length (columns df) \<Longrightarrow>
          fst (columns out ! i) = fst (columns df ! i) \<and>
          (fst (columns df ! i) \<notin> D \<longrightarrow> columns out ! i = columns df ! i)"
    using assms(1) by (simp_all add: keeps_columns_def)
  have "fst (dict_setitem (columns out) name vals ! i) = fst (columns df ! i) \<and>
        (fst (columns df ! i) \<notin> D \<longrightarrow> dict_setitem (columns out) name vals ! i = columns df ! i)"
    if "i < length (columns df)" for i
  proof -
    have i: "i < length (columns out)" using that len by simp
    show ?thesis
      using nth_dict_setitem [OF i, of name vals] cols [OF that] assms(2) by auto
  qed
  moreover have "length (columns df) \<le> length (dict_setitem (columns out) name vals)"
    using len length_dict_setitem [of "columns out" name vals] by simp
  ultimately show ?thesis
    using rows by (simp add: keeps_columns_def set_column_def)
qed

lemma wf_frame_set_column:
  assumes "wf_frame df" and "length vals = n_rows df"
  shows "wf_frame (set_column df name vals)"
  using assms set_dict_setitem [of _ "columns df" name vals]
  by (fastforce simp add: wf_frame_def set_column_def)

lemma keeps_columns_no_clash:
  assumes "keeps_columns D df out" and "fst ` set (columns df) \<inter> D = {}"
  shows "take (length (columns df)) (columns out) = columns df"
proof (rule nth_equalityI)
  show "length (take (length (columns df)) (columns out)) = length (columns df)"
    using assms(1) by (simp add: keeps_columns_def)
next
  fix i assume "i < length (take (length (columns df)) (columns out))"
  then have i: "i < length (columns df)" by simp
  then have "fst (columns df ! i) \<in> fst ` set (columns df)" by simp
  then have "fst (columns df ! i) \<notin> D" using assms(2) by blast
  then show "take (length (columns df)) (columns out) ! i = columns df ! i"
    using assms(1) i by (simp add: keeps_columns_def)
qed

subsection \<open>Applying a function to a series\<close>

lemma apply_series_total:
  "(\<And>x. x \<in> set xs \<Longrightarrow> f x = Inr (g x)) \<Longrightarrow> apply_series f xs = Inr (map g xs)"
  by (induction xs) simp_all

lemma apply_series_Inr:
  "apply_series f xs = Inr ys \<Longrightarrow>
     length ys = length xs \<and> (\<forall>i < length xs. f (xs ! i) = Inr (ys ! i))"
proof (induction xs arbitrary: ys)
  case Nil
  then show ?case by simp
next
  case (Cons x xs)
  then obtain y ys' where y: "f x = Inr y" "apply_series f xs = Inr ys'" "ys = y # ys'"
    by (auto split: sum.splits)
  with Cons.IH [OF y(2)] show ?case
    by (auto simp add: nth_Cons split: nat.splits)
qed

lemma apply_series_Inl:
  "x \<in> set xs \<Longrightarrow> f x = Inl e \<Longrightarrow> \<exists>e'. apply_series f xs = Inl e'"
  by (induction xs) (auto split: sum.splits)

subsection \<open>\<open>process_sentiment_data\<close> on the heap\<close>

lemma df_copy_getitem: "df_getitem (h @ [x]) (length h) name = get_column x name"
  by (simp add: df_getitem_def)

lemma df_copy_setitem: "df_setitem (h @ [x]) (length h) name vals = h @ [set_column x name vals]"
  by (simp add: df_setitem_def)

lemma labels_of_scores:
  "apply_series sentiment_label (map (\<lambda>x. Float (f x)) texts)
     = Inr (map (\<lambda>x. Str (label_of (f x))) texts)"
  by (induction texts) simp_all

lemma process_sentiment_data_Inr:
  assumes "get_column (h ! df) text_column = Inr texts"
  shows "process_sentiment_data fr h df text_column P N
           = Inr (h @ [scored_frame fr (h ! df) texts P N], length h)"
  using assms
  by (simp add: process_sentiment_data_def df_copy_def df_copy_getitem df_copy_setitem
      get_set_column labels_of_scores scored_frame_def Let_def)

lemma process_sentiment_data_Inl:
  assumes "get_column (h ! df) text_column = Inl e"
  shows "process_sentiment_data fr h df text_column P N = Inl e"
  using assms
  by (simp add: process_sentiment_data_def df_copy_def df_copy_getitem)

lemma scored_frame_columns:
  "get_column (scored_frame fr df texts P N) ''sentiment_score''
     = Inr (map (\<lambda>x. Float (continuous_sentiment_score fr x P N)) texts) \<and>
   get_column (scored_frame fr df texts P N) ''sentiment_label''
     = Inr (map (\<lambda>x. Str (label_of (continuous_sentiment_score fr x P N))) texts)"
  by (simp add: scored_frame_def get_set_column)

lemma scored_frame_keeps:
  "keeps_columns {''sentiment_score'', ''sentiment_label''} df (scored_frame fr df texts P N)"
  unfolding scored_frame_def
  by (intro keeps_columns_set_column keeps_columns_refl) simp_all

lemma get_column_length:
  "wf_frame df \<Longrightarrow> get_column df name = Inr vals \<Longrightarrow> length vals = n_rows df"
  by (fastforce simp add: wf_frame_def get_column_def split: option.splits dest: map_of_SomeD)

lemma n_rows_set_column: "n_rows (set_column df name vals) = n_rows df"
  by (simp add: set_column_def)

lemma scored_frame_wf:
  assumes "wf_frame df" and "get_column df text_column = Inr texts"
  shows "wf_frame (scored_frame fr df texts P N)"
  unfolding scored_frame_def
  using assms get_column_length [OF assms]
  by (intro wf_frame_set_column) (simp_all add: n_rows_set_column)

lemma label_of_cases:
  "(label_of x = ''Positive'') = (x > 1 / 10) \<and>
   (label_of x = ''Negative'') = (x < - (1 / 10)) \<and>
   (label_of x = ''Neutral'') = (- (1 / 10) \<le> x \<and> x \<le> 1 / 10)"
  by (auto simp add: label_of_def)

lemma py_split_blank:
  assumes "list_all is_space s"
  shows "py_split (py_lower s) = []"
proof -
  have "list_all is_space (py_lower s)"
    using assms by (simp add: py_lower_def list_all_iff is_space_lower_char)
  then have d: "dropWhile is_space (py_lower s) = []"
    by (simp add: list_all_iff)
  show ?thesis
    by (subst py_split.simps) (simp only: d list.case)
qed

lemma score_blank:
  assumes "list_all is_space s"
  shows "continuous_sentiment_score fr (Str s) P N = 0"
  using py_split_blank [OF assms]
  by (simp add: continuous_sentiment_score_def)

lemma score_missing: "continuous_sentiment_score fr NaN P N = 0"
  by (simp add: continuous_sentiment_score_def)

text \<open>
  Claim C2. In the frame that \<open>process_sentiment_data\<close> returns, the label of
  every row is \<open>Positive\<close> exactly when the score of the row is above \<open>0.1\<close>,
  \<open>Negative\<close> exactly when it is below \<open>-0.1\<close>, and \<open>Neutral\<close> otherwise,
  the score being that of the row's text; a row whose text is missing, empty or made
  of whitespace only has the score \<open>0\<close> and the label \<open>Neutral\<close>.
\<close>

theorem labels_follow_scores:
  assumes "df < length h"
    and "get_column (h ! df) text_column = Inr texts"
    and "i < length texts"
  shows "\<exists>h' out scores labels score label.
           process_sentiment_data fr h df text_column P N = Inr (h', out) \<and>
           get_column (h' ! out) ''sentiment_score'' = Inr scores \<and>
           get_column (h' ! out) ''sentiment_label'' = Inr labels \<and>
           length scores = length texts \<and> length labels = length texts \<and>
           scores ! i = Float score \<and> labels ! i = Str label \<and>
           score = continuous_sentiment_score fr (texts ! i) P N \<and>
           (label = ''Positive'') = (score > 1 / 10) \<and>
           (label = ''Negative'') = (score < - (1 / 10)) \<and>
           (label = ''Neutral'') = (- (1 / 10) \<le> score \<and> score \<le> 1 / 10) \<and>
           ((texts ! i = NaN \<or> (\<exists>s. texts ! i = Str s \<and> list_all is_space s))
              \<longrightarrow> score = 0 \<and> label = ''Neutral'')"
proof -
  let ?score = "\<lambda>x. continuous_sentiment_score fr x P N"
  let ?out = "scored_frame fr (h ! df) texts P N"
  let ?scores = "map (\<lambda>x. Float (?score x)) texts"
  let ?labels = "map (\<lambda>x. Str (label_of (?score x))) texts"
  have p: "process_sentiment_data fr h df text_column P N = Inr (h @ [?out], length h)"
    using assms(2) by (rule process_sentiment_data_Inr)
  have o: "(h @ [?out]) ! length h = ?out" by simp
  have s: "get_column ((h @ [?out]) ! length h) ''sentiment_score'' = Inr ?scores"
    and l: "get_column ((h @ [?out]) ! length h) ''sentiment_label'' = Inr ?labels"
    using scored_frame_columns [of fr "h ! df" texts P N] by (simp_all only: o)
  have ls: "length ?scores = length texts" and ll: "length ?labels = length texts"
    by simp_all
  have si: "?scores ! i = Float (?score (texts ! i))"
    and li: "?labels ! i = Str (label_of (?score (texts ! i)))"
    using assms(3) by simp_all
  have z: "(texts ! i = NaN \<or> (\<exists>s. texts ! i = Str s \<and> list_all is_space s))
              \<longrightarrow> ?score (texts ! i) = 0 \<and> label_of (?score (texts ! i)) = ''Neutral''"
    using score_missing [of fr P N] score_blank [of _ fr P N]
    by (auto simp add: label_of_def)
  note c = label_of_cases [of "?score (texts ! i)"]
  show ?thesis
    using p s l ls ll si li c [THEN conjunct1] c [THEN conjunct2, THEN conjunct1]
      c [THEN conjunct2, THEN conjunct2] z
    by (intro exI conjI) (assumption | rule refl)+
qed

theorem labels_follow_scores_witness:
  "(0::nat) < length [\<lparr>n_rows = 2, columns = [(''review'', [Str ''Good good bad'', NaN])]\<rparr>] \<and>
   get_column ([\<lparr>n_rows = 2, columns = [(''review'', [Str ''Good good bad'', NaN])]\<rparr>] ! 0) ''review''
     = Inr [Str ''Good good bad'', NaN] \<and>
   (1::nat) < length [Str ''Good good bad'', NaN] \<and>
   (\<exists>h' out scores labels.
      process_sentiment_data whole_float_repr [\<lparr>n_rows = 2, columns = [(''review'', [Str ''Good good bad'', NaN])]\<rparr>]
        0 ''review'' {''good''} {''bad''} = Inr (h', out) \<and>
      get_column (h' ! out) ''sentiment_score'' = Inr scores \<and>
      get_column (h' ! out) ''sentiment_label'' = Inr labels \<and>
      scores ! 1 = Float 0 \<and> labels ! 1 = Str ''Neutral'')"
proof -
  let ?h = "[\<lparr>n_rows = 2, columns = [(''review'', [Str ''Good good bad'', NaN])]\<rparr>]"
  let ?texts = "[Str ''Good good bad'', NaN]"
  have a: "(0::nat) < length ?h" by simp
  have b: "get_column (?h ! 0) ''review'' = Inr ?texts" by (simp add: get_column_def)
  have c: "(1::nat) < length ?texts" by simp
  have n: "?texts ! 1 = NaN" by simp
  from labels_follow_scores [OF a b c, of whole_float_repr "{''good''}" "{''bad''}"]
  obtain h' out scores labels score label where r:
    "process_sentiment_data whole_float_repr ?h 0 ''review'' {''good''} {''bad''} = Inr (h', out)"
    "get_column (h' ! out) ''sentiment_score'' = Inr scores"
    "get_column (h' ! out) ''sentiment_label'' = Inr labels"
    "scores ! 1 = Float score" "labels ! 1 = Str label"
    "(?texts ! 1 = NaN \<or> (\<exists>s. ?texts ! 1 = Str s \<and> list_all is_space s))
       \<longrightarrow> score = 0 \<and> label = ''Neutral''"
    by (elim conjE exE) (rule that, assumption+)
  from r(6) n have "score = 0" "label = ''Neutral''" by blast+
  with r(4,5) have v: "scores ! 1 = Float 0" "labels ! 1 = Str ''Neutral''" by simp_all
  show ?thesis
    using a b c r(1,2,3) v by (intro exI conjI) assumption+
qed

section \<open>\<open>process_dataframe\<close> on the heap\<close>

lemma suffix_count_present: "d @ ''_count'' \<noteq> d' @ ''_present''"
proof
  assume "d @ ''_count'' = d' @ ''_present''"
  then have "rev (d @ ''_count'') = rev (d' @ ''_present'')" by (rule arg_cong)
  then show False by simp
qed

lemma suffix_count_matches: "d @ ''_count'' \<noteq> d' @ ''_matches''"
proof
  assume "d @ ''_count'' = d' @ ''_matches''"
  then have "rev (d @ ''_count'') = rev (d' @ ''_matches'')" by (rule arg_cong)
  then show False by simp
qed

lemma suffix_present_matches: "d @ ''_present'' \<noteq> d' @ ''_matches''"
proof
  assume "d @ ''_present'' = d' @ ''_matches''"
  then have "rev (d @ ''_present'') = rev (d' @ ''_matches'')" by (rule arg_cong)
  then show False by simp
qed

lemmas suffix_distinct =
  suffix_count_present suffix_count_matches suffix_present_matches
  suffix_count_present [symmetric] suffix_count_matches [symmetric]
  suffix_present_matches [symmetric]

lemma derived_names_iff:
  "(d @ ''_count'' \<in> derived_names ns) = (d \<in> set ns) \<and>
   (d @ ''_present'' \<in> derived_names ns) = (d \<in> set ns) \<and>
   (d @ ''_matches'' \<in> derived_names ns) = (d \<in> set ns)"
  by (auto simp add: derived_names_def suffix_distinct)

lemma fold_add_result_columns:
  "fold (add_result_columns cls (length h)) names (h @ [x])
     = h @ [fold (result_columns cls) names x]"
  by (induction names arbitrary: x)
     (simp_all add: add_result_columns_def result_columns_def df_copy_setitem Let_def)

lemma process_dataframe_Inr:
  assumes "get_column (h ! df) text_column = Inr texts"
    and "apply_series (\<lambda>x. classify_text x dictionaries) texts = Inr cls"
  shows "process_dataframe h df text_column dictionaries
           = Inr (h @ [fold (result_columns cls) (map fst dictionaries) (h ! df)], length h)"
  using assms
  by (simp add: process_dataframe_def df_getitem_def df_copy_def fold_add_result_columns)

lemma result_columns_keeps:
  assumes "keeps_columns D df out" and "derived_names [n] \<subseteq> D"
  shows "keeps_columns D df (result_columns cls n out)"
  unfolding result_columns_def
  using assms by (intro keeps_columns_set_column) (simp_all add: derived_names_def)

lemma fold_result_columns_keeps:
  assumes "keeps_columns D df out" and "derived_names ns \<subseteq> D"
  shows "keeps_columns D df (fold (result_columns cls) ns out)"
  using assms
proof (induction ns arbitrary: out)
  case Nil
  then show ?case by simp
next
  case (Cons n ns)
  have "derived_names [n] \<subseteq> D" "derived_names ns \<subseteq> D"
    using Cons.prems(2) by (auto simp add: derived_names_def)
  then show ?case
    using Cons.IH result_columns_keeps [OF Cons.prems(1)] by simp
qed

lemma result_columns_wf:
  assumes "wf_frame out" and "length cls = n_rows out"
  shows "wf_frame (result_columns cls n out) \<and> n_rows (result_columns cls n out) = n_rows out"
  unfolding result_columns_def
  using assms
  by (intro conjI wf_frame_set_column) (simp_all add: n_rows_set_column)

lemma fold_result_columns_wf:
  assumes "wf_frame out" and "length cls = n_rows out"
  shows "wf_frame (fold (result_columns cls) ns out)"
  using assms
proof (induction ns arbitrary: out)
  case Nil
  then show ?case by simp
next
  case (Cons n ns)
  then show ?case using result_columns_wf [of out cls n] by simp
qed

lemma get_column_result_columns:
  "get_column (result_columns cls n df) k =
     (if k = n @ ''_matches'' then Inr (map (\<lambda>x. Str (get_matches x n)) cls)
      else if k = n @ ''_present'' then Inr (map (\<lambda>x. Bool (get_present x n)) cls)
      else if k = n @ ''_count'' then Inr (map (\<lambda>x. Integer (get_count x n)) cls)
      else get_column df k)"
  by (simp add: result_columns_def get_set_column)

lemma get_column_fold_other:
  assumes "k \<notin> derived_names ns"
  shows "get_column (fold (result_columns cls) ns df) k = get_column df k"
  using assms
proof (induction ns arbitrary: df)
  case Nil
  then show ?case by simp
next
  case (Cons n ns)
  then have "k \<notin> derived_names ns" "k \<noteq> n @ ''_count''" "k \<noteq> n @ ''_present''"
    "k \<noteq> n @ ''_matches''"
    by (auto simp add: derived_names_def)
  then show ?case
    using Cons.IH by (simp add: get_column_result_columns)
qed

lemma get_column_fold_derived:
  assumes "distinct ns" and "n \<in> set ns"
  shows "get_column (fold (result_columns cls) ns df) (n @ ''_count'')
           = Inr (map (\<lambda>x. Integer (get_count x n)) cls) \<and>
         get_column (fold (result_columns cls) ns df) (n @ ''_present'')
           = Inr (map (\<lambda>x. Bool (get_present x n)) cls) \<and>
         get_column (fold (result_columns cls) ns df) (n @ ''_matches'')
           = Inr (map (\<lambda>x. Str (get_matches x n)) cls)"
  using assms
proof (induction ns arbitrary: df)
  case Nil
  then show ?case by simp
next
  case (Cons m ns)
  show ?case
  proof (cases "n = m")
    case True
    then have "n \<notin> set ns" using Cons.prems(1) by simp
    then have "n @ ''_count'' \<notin> derived_names ns" "n @ ''_present'' \<notin> derived_names ns"
      "n @ ''_matches'' \<notin> derived_names ns"
      by (simp_all add: derived_names_iff)
    then show ?thesis
      using True by (simp add: get_column_fold_other get_column_result_columns suffix_distinct)
  next
    case False
    then have "n \<in> set ns" "distinct ns" using Cons.prems by simp_all
    then show ?thesis using Cons.IH by simp
  qed
qed

lemma apply_series_defined:
  "(\<And>x. x \<in> set xs \<Longrightarrow> \<exists>y. f x = Inr y) \<Longrightarrow> \<exists>ys. apply_series f xs = Inr ys"
proof (induction xs)
  case Nil
  then show ?case by simp
next
  case (Cons x xs)
  then obtain y ys where "f x = Inr y" "apply_series f xs = Inr ys"
    by (metis list.set_intros(1,2))
  then show ?case by simp
qed

lemma classify_text_defined:
  "x = NaN \<or> (\<exists>s. x = Str s) \<Longrightarrow> \<exists>y. classify_text x dictionaries = Inr y"
  by (auto simp add: Let_def)

section \<open>Missing and non-string values\<close>

text \<open>
  Claim C5, as stated, fails: for a missing value \<open>classify_text\<close> returns the
  empty dict, which holds a result for no dictionary.
\<close>

theorem missing_text_counterexample:
  "classify_text NaN [(''exclusive_marketing'', [''vip''])] = Inr [] \<and>
   map_of ([] :: (string \<times> dict_result) list) ''exclusive_marketing'' = None"
  by simp

text \<open>
  Claim C5, amended. For a missing value \<open>classify_text\<close> returns the empty dict
  and raises nothing; \<open>process_dataframe\<close> reads it with defaults, so that for
  every dictionary of the input the row of a missing text gets the count \<open>0\<close>, the
  flag \<open>False\<close> and the empty matches string in the three columns of that
  dictionary.
\<close>

theorem missing_text_reads_as_no_match:
  assumes "df < length h"
    and "get_column (h ! df) text_column = Inr texts"
    and "\<forall>x \<in> set texts. x = NaN \<or> (\<exists>s. x = Str s)"
    and "distinct (map fst dictionaries)"
    and "(dict_name, terms) \<in> set dictionaries"
    and "i < length texts"
    and "texts ! i = NaN"
  shows "classify_text NaN dictionaries = Inr [] \<and>
         get_count [] dict_name = 0 \<and> get_present [] dict_name = False \<and>
         get_matches [] dict_name = [] \<and>
         (\<exists>out counts flags found.
            process_dataframe h df text_column dictionaries = Inr (h @ [out], length h) \<and>
            get_column out (dict_name @ ''_count'') = Inr counts \<and>
            get_column out (dict_name @ ''_present'') = Inr flags \<and>
            get_column out (dict_name @ ''_matches'') = Inr found \<and>
            counts ! i = Integer 0 \<and> flags ! i = Bool False \<and> found ! i = Str [])"
proof -
  have "\<exists>cls. apply_series (\<lambda>x. classify_text x dictionaries) texts = Inr cls"
    using assms(3) by (intro apply_series_defined classify_text_defined) blast
  then obtain cls where cls: "apply_series (\<lambda>x. classify_text x dictionaries) texts = Inr cls" ..
  let ?out = "fold (result_columns cls) (map fst dictionaries) (h ! df)"
  have p: "process_dataframe h df text_column dictionaries = Inr (h @ [?out], length h)"
    using assms(2) cls by (rule process_dataframe_Inr)
  have len: "length cls = length texts"
    and row: "classify_text (texts ! i) dictionaries = Inr (cls ! i)"
    using apply_series_Inr [OF cls] assms(6) by simp_all
  then have e: "cls ! i = []" using assms(7) by simp
  have d: "dict_name \<in> set (map fst dictionaries)"
    using assms(5) by (simp add: image_iff) (metis fst_conv)
  note g = get_column_fold_derived [OF assms(4) d, of cls "h ! df"]
  have i: "i < length cls" using len assms(6) by simp
  have c1: "map (\<lambda>x. Integer (get_count x dict_name)) cls ! i = Integer 0"
    and c2: "map (\<lambda>x. Bool (get_present x dict_name)) cls ! i = Bool False"
    and c3: "map (\<lambda>x. Str (get_matches x dict_name)) cls ! i = Str []"
    using i e by (simp_all add: get_count_def get_present_def get_matches_def)
  have m: "classify_text NaN dictionaries = Inr []" "get_count [] dict_name = 0"
    "get_present [] dict_name = False" "get_matches [] dict_name = []"
    by (simp_all add: get_count_def get_present_def get_matches_def)
  show ?thesis
    using m p g [THEN conjunct1] g [THEN conjunct2, THEN conjunct1]
      g [THEN conjunct2, THEN conjunct2] c1 c2 c3
    by (intro exI conjI) assumption+
qed

theorem missing_text_reads_as_no_match_witness:
  "(0::nat) < length [\<lparr>n_rows = 2, columns = [(''Statement'', [Str ''VIP deal'', NaN])]\<rparr>] \<and>
   get_column ([\<lparr>n_rows = 2, columns = [(''Statement'', [Str ''VIP deal'', NaN])]\<rparr>] ! 0) ''Statement''
     = Inr [Str ''VIP deal'', NaN] \<and>
   distinct (map fst [(''exclusive_marketing'', [''vip''])]) \<and>
   (1::nat) < length [Str ''VIP deal'', NaN] \<and>
   [Str ''VIP deal'', NaN] ! 1 = NaN \<and>
   (\<exists>out counts flags found.
      process_dataframe [\<lparr>n_rows = 2, columns = [(''Statement'', [Str ''VIP deal'', NaN])]\<rparr>] 0
        ''Statement'' [(''exclusive_marketing'', [''vip''])]
        = Inr ([\<lparr>n_rows = 2, columns = [(''Statement'', [Str ''VIP deal'', NaN])]\<rparr>] @ [out], 1) \<and>
      get_column out ''exclusive_marketing_count'' = Inr counts \<and>
      get_column out ''exclusive_marketing_present'' = Inr flags \<and>
      get_column out ''exclusive_marketing_matches'' = Inr found \<and>
      counts ! 1 = Integer 0 \<and> flags ! 1 = Bool False \<and> found ! 1 = Str [])"
proof -
  let ?h = "[\<lparr>n_rows = 2, columns = [(''Statement'', [Str ''VIP deal'', NaN])]\<rparr>]"
  let ?texts = "[Str ''VIP deal'', NaN]"
  let ?d = "[(''exclusive_marketing'', [''vip''])]"
  have a: "(0::nat) < length ?h" by simp
  have b: "get_column (?h ! 0) ''Statement'' = Inr ?texts" by (simp add: get_column_def)
  have c: "\<forall>x \<in> set ?texts. x = NaN \<or> (\<exists>s. x = Str s)" by simp
  have d: "distinct (map fst ?d)" by simp
  have e: "(''exclusive_marketing'', [''vip'']) \<in> set ?d" by simp
  have f: "(1::nat) < length ?texts" by simp
  have g: "?texts ! 1 = NaN" by simp
  have l: "length ?h = 1" by simp
  have n: "''exclusive_marketing'' @ ''_count'' = ''exclusive_marketing_count''"
    "''exclusive_marketing'' @ ''_present'' = ''exclusive_marketing_present''"
    "''exclusive_marketing'' @ ''_matches'' = ''exclusive_marketing_matches''"
    by simp_all
  from missing_text_reads_as_no_match [OF a b c d e f g]
  obtain out counts flags found where r:
    "process_dataframe ?h 0 ''Statement'' ?d = Inr (?h @ [out], length ?h)"
    "get_column out (''exclusive_marketing'' @ ''_count'') = Inr counts"
    "get_column out (''exclusive_marketing'' @ ''_present'') = Inr flags"
    "get_column out (''exclusive_marketing'' @ ''_matches'') = Inr found"
    "counts ! 1 = Integer 0" "flags ! 1 = Bool False" "found ! 1 = Str []"
    by (elim conjE exE) (rule that, assumption+)
  note r' = r(1) [unfolded l] r(2-4) [unfolded n] r(5-7)
  show ?thesis
    using a b d f g r' by (intro exI conjI) assumption+
qed

lemma score_non_string:
  "continuous_sentiment_score fr x P N
     = (if py_isna x \<or> \<not> py_truthy x then 0
        else continuous_sentiment_score fr (Str (py_str fr x)) P N)"
proof (cases "py_str fr x = []")
  case True
  then show ?thesis
    by (simp add: continuous_sentiment_score_def py_lower_def py_split_Nil)
next
  case False
  then show ?thesis
    by (simp add: continuous_sentiment_score_def)
qed

text \<open>
  Claim C8, as stated, fails: a value that is neither a string nor missing is not
  treated as empty text. The scorer scores the truth value \<open>True\<close> as the text
  \<open>True\<close>, and the classifier raises on it.
\<close>

theorem non_string_cell_counterexample:
  "continuous_sentiment_score whole_float_repr (Bool True) {''true''} {} = 1 \<and>
   sentiment_label (Float (continuous_sentiment_score whole_float_repr (Bool True) {''true''} {}))
     = Inr (Str ''Positive'') \<and>
   classify_text (Bool True) [(''exclusive_marketing'', [''vip''])] = Inl AttributeError"
proof -
  have "py_split (py_lower ''True'') = [''true'']" by code_simp
  then have "continuous_sentiment_score whole_float_repr (Bool True) {''true''} {} = 1"
    by (simp add: continuous_sentiment_score_def)
  then show ?thesis by (simp add: label_of_def)
qed

text \<open>
  Claim C8, amended. A missing value is no error for either engine: the scorer
  returns \<open>0\<close>, which is labelled \<open>Neutral\<close>, and the classifier returns the
  empty dict, which reads as count \<open>0\<close>, not present, no matches. A value that is
  neither a string nor missing is not replaced by the empty text: the scorer returns
  \<open>0\<close> when the value is falsy and otherwise the score of the text \<open>str(value)\<close>.
\<close>

theorem missing_is_neutral_and_other_values_are_scored_as_text:
  "continuous_sentiment_score fr NaN P N = 0 \<and>
   sentiment_label (Float (continuous_sentiment_score fr NaN P N)) = Inr (Str ''Neutral'') \<and>
   classify_text NaN dictionaries = Inr [] \<and>
   get_count [] dict_name = 0 \<and> get_present [] dict_name = False \<and>
   get_matches [] dict_name = [] \<and>
   (\<not> py_isna x \<and> (\<forall>s. x \<noteq> Str s) \<longrightarrow>
      continuous_sentiment_score fr x P N
        = (if py_truthy x then continuous_sentiment_score fr (Str (py_str fr x)) P N else 0))"
  using score_non_string [of fr x P N]
  by (simp add: score_missing label_of_def get_count_def get_present_def get_matches_def)

theorem missing_is_neutral_and_other_values_are_scored_as_text_witness:
  "\<not> py_isna (Integer 1) \<and> py_truthy (Integer 1) \<and> py_str whole_float_repr (Integer 1) = ''1'' \<and>
   continuous_sentiment_score whole_float_repr (Integer 1) {''1''} {}
     = continuous_sentiment_score whole_float_repr (Str ''1'') {''1''} {} \<and>
   continuous_sentiment_score whole_float_repr (Str ''1'') {''1''} {} = 1"
proof -
  have s: "py_str whole_float_repr (Integer 1) = ''1''" by code_simp
  have w: "py_split (py_lower ''1'') = [''1'']" by code_simp
  have v: "continuous_sentiment_score whole_float_repr (Str ''1'') {''1''} {} = 1"
    using w by (simp add: continuous_sentiment_score_def)
  have n: "\<forall>s. Integer 1 \<noteq> Str s" by simp
  show ?thesis
    using missing_is_neutral_and_other_values_are_scored_as_text
      [of whole_float_repr "{''1''}" "{}" "[]" "[]" "Integer 1"] s v n
    by simp
qed

section \<open>What the batch processors leave unchanged\<close>

lemma names_dict_setitem: "fst ` set (dict_setitem d k v) = insert k (fst ` set d)"
proof (cases "k \<in> fst ` set d")
  case True
  have "fst ` set (map (\<lambda>(k', v'). if k' = k then (k', v) else (k', v')) d) = fst ` set d"
    by (induction d) auto
  with True show ?thesis by (auto simp add: dict_setitem_def)
next
  case False
  then show ?thesis by (auto simp add: dict_setitem_def)
qed

lemma names_set_column:
  "fst ` set (columns (set_column df name vals)) = insert name (fst ` set (columns df))"
  by (simp add: set_column_def names_dict_setitem)

lemma names_result_columns:
  "fst ` set (columns (result_columns cls n df)) = fst ` set (columns df) \<union> derived_names [n]"
  by (auto simp add: result_columns_def names_set_column derived_names_def)

lemma names_fold_result_columns:
  "fst ` set (columns (fold (result_columns cls) ns df)) = fst ` set (columns df) \<union> derived_names ns"
proof (induction ns arbitrary: df)
  case Nil
  then show ?case by (simp add: derived_names_def)
next
  case (Cons n ns)
  have "derived_names (n # ns) = derived_names [n] \<union> derived_names ns"
    by (auto simp add: derived_names_def)
  then show ?case
    by (simp add: Cons.IH names_result_columns Un_assoc)
qed

text \<open>
  Claim C9, as stated, fails: a column of the input that bears the name of a derived
  column is overwritten in the copy, and \<open>process_dataframe\<close> returns no frame
  when a cell of the text column is neither a string nor missing.
\<close>

theorem overwritten_column_counterexample:
  "process_sentiment_data whole_float_repr
     [\<lparr>n_rows = 1, columns = [(''review'', [Str ''good'']), (''sentiment_label'', [Str ''unrated''])]\<rparr>]
     0 ''review'' {''good''} {''bad''}
   = Inr ([\<lparr>n_rows = 1, columns = [(''review'', [Str ''good'']), (''sentiment_label'', [Str ''unrated''])]\<rparr>,
           \<lparr>n_rows = 1, columns = [(''review'', [Str ''good'']), (''sentiment_label'', [Str ''Positive'']),
                                    (''sentiment_score'', [Float 1])]\<rparr>], 1) \<and>
   process_dataframe [\<lparr>n_rows = 1, columns = [(''in_stock'', [Bool True])]\<rparr>] 0 ''in_stock''
     [(''exclusive_marketing'', [''vip''])] = Inl AttributeError"
proof -
  let ?f = "\<lparr>n_rows = 1, columns = [(''review'', [Str ''good'']), (''sentiment_label'', [Str ''unrated''])]\<rparr>"
  have g: "get_column ([?f] ! 0) ''review'' = Inr [Str ''good'']"
    by (simp add: get_column_def)
  have w: "py_split (py_lower ''good'') = [''good'']" by code_simp
  have s: "continuous_sentiment_score whole_float_repr (Str ''good'') {''good''} {''bad''} = 1"
    using w by (simp add: continuous_sentiment_score_def)
  have f: "scored_frame whole_float_repr ([?f] ! 0) [Str ''good''] {''good''} {''bad''}
             = \<lparr>n_rows = 1, columns = [(''review'', [Str ''good'']), (''sentiment_label'', [Str ''Positive'']),
                                    (''sentiment_score'', [Float 1])]\<rparr>"
    by (simp add: scored_frame_def set_column_def dict_setitem_def s label_of_def)
  have "process_sentiment_data whole_float_repr [?f] 0 ''review'' {''good''} {''bad''}
          = Inr ([?f] @ [scored_frame whole_float_repr ([?f] ! 0) [Str ''good''] {''good''} {''bad''}],
                 length [?f])"
    using g by (rule process_sentiment_data_Inr)
  then have 1: "process_sentiment_data whole_float_repr [?f] 0 ''review'' {''good''} {''bad''}
          = Inr ([?f, \<lparr>n_rows = 1, columns = [(''review'', [Str ''good'']), (''sentiment_label'', [Str ''Positive'']),
                                    (''sentiment_score'', [Float 1])]\<rparr>], 1)"
    by (simp only: f) simp
  have 2: "process_dataframe [\<lparr>n_rows = 1, columns = [(''in_stock'', [Bool True])]\<rparr>] 0 ''in_stock''
     [(''exclusive_marketing'', [''vip''])] = Inl AttributeError"
    by (simp add: process_dataframe_def df_getitem_def get_column_def)
  from 1 2 show ?thesis by (rule conjI)
qed

text \<open>
  Claim C9, amended. When the text column exists (and, for the classifier, holds
  only strings and missing values), \<open>process_sentiment_data\<close> and
  \<open>process_dataframe\<close> return a reference to a new frame and change no frame that
  existed, the input least of all. The new frame has the rows of the input and is
  well formed; the columns of the input are its first columns, under their names and in
  their order, and each keeps its values unless its name is that of a derived column;
  every other column of the new frame is a derived one. When no column of the input
  bears a derived name, all columns of the input are unchanged.
\<close>

theorem batch_processors_keep_other_columns:
  assumes "df < length h"
    and "wf_frame (h ! df)"
    and "get_column (h ! df) text_column = Inr texts"
  shows "(\<exists>out.
            process_sentiment_data fr h df text_column P N = Inr (h @ [out], length h) \<and>
            (h @ [out]) ! df = h ! df \<and>
            wf_frame out \<and>
            keeps_columns {''sentiment_score'', ''sentiment_label''} (h ! df) out \<and>
            fst ` set (columns out)
              = fst ` set (columns (h ! df)) \<union> {''sentiment_score'', ''sentiment_label''} \<and>
            (fst ` set (columns (h ! df)) \<inter> {''sentiment_score'', ''sentiment_label''} = {} \<longrightarrow>
               take (length (columns (h ! df))) (columns out) = columns (h ! df))) \<and>
         ((\<forall>x \<in> set texts. x = NaN \<or> (\<exists>s. x = Str s)) \<longrightarrow>
          (\<exists>out.
            process_dataframe h df text_column dictionaries = Inr (h @ [out], length h) \<and>
            (h @ [out]) ! df = h ! df \<and>
            wf_frame out \<and>
            keeps_columns (derived_names (map fst dictionaries)) (h ! df) out \<and>
            fst ` set (columns out)
              = fst ` set (columns (h ! df)) \<union> derived_names (map fst dictionaries) \<and>
            (fst ` set (columns (h ! df)) \<inter> derived_names (map fst dictionaries) = {} \<longrightarrow>
               take (length (columns (h ! df))) (columns out) = columns (h ! df))))"
proof (rule conjI)
  let ?out = "scored_frame fr (h ! df) texts P N"
  let ?D = "{''sentiment_score'', ''sentiment_label''}"
  have p: "process_sentiment_data fr h df text_column P N = Inr (h @ [?out], length h)"
    using assms(3) by (rule process_sentiment_data_Inr)
  have u: "(h @ [?out]) ! df = h ! df"
    using assms(1) by (simp add: nth_append)
  have w: "wf_frame ?out"
    using assms(2,3) by (rule scored_frame_wf)
  have k: "keeps_columns ?D (h ! df) ?out"
    by (rule scored_frame_keeps)
  have n: "fst ` set (columns ?out) = fst ` set (columns (h ! df)) \<union> ?D"
    by (auto simp add: scored_frame_def names_set_column)
  have t: "fst ` set (columns (h ! df)) \<inter> ?D = {} \<longrightarrow>
             take (length (columns (h ! df))) (columns ?out) = columns (h ! df)"
    using keeps_columns_no_clash [OF k] by blast
  show "\<exists>out.
            process_sentiment_data fr h df text_column P N = Inr (h @ [out], length h) \<and>
            (h @ [out]) ! df = h ! df \<and>
            wf_frame out \<and>
            keeps_columns ?D (h ! df) out \<and>
            fst ` set (columns out) = fst ` set (columns (h ! df)) \<union> ?D \<and>
            (fst ` set (columns (h ! df)) \<inter> ?D = {} \<longrightarrow>
               take (length (columns (h ! df))) (columns out) = columns (h ! df))"
    using p u w k n t by (intro exI conjI) assumption+
next
  let ?D = "derived_names (map fst dictionaries)"
  show "(\<forall>x \<in> set texts. x = NaN \<or> (\<exists>s. x = Str s)) \<longrightarrow>
          (\<exists>out.
            process_dataframe h df text_column dictionaries = Inr (h @ [out], length h) \<and>
            (h @ [out]) ! df = h ! df \<and>
            wf_frame out \<and>
            keeps_columns ?D (h ! df) out \<and>
            fst ` set (columns out) = fst ` set (columns (h ! df)) \<union> ?D \<and>
            (fst ` set (columns (h ! df)) \<inter> ?D = {} \<longrightarrow>
               take (length (columns (h ! df))) (columns out) = columns (h ! df)))"
  proof
    assume cells: "\<forall>x \<in> set texts. x = NaN \<or> (\<exists>s. x = Str s)"
    have "\<exists>cls. apply_series (\<lambda>x. classify_text x dictionaries) texts = Inr cls"
      using cells by (intro apply_series_defined classify_text_defined) blast
    then obtain cls where cls: "apply_series (\<lambda>x. classify_text x dictionaries) texts = Inr cls" ..
    let ?out = "fold (result_columns cls) (map fst dictionaries) (h ! df)"
    have p: "process_dataframe h df text_column dictionaries = Inr (h @ [?out], length h)"
      using assms(3) cls by (rule process_dataframe_Inr)
    have u: "(h @ [?out]) ! df = h ! df"
      using assms(1) by (simp add: nth_append)
    have "length cls = length texts"
      using apply_series_Inr [OF cls] by simp
    then have len: "length cls = n_rows (h ! df)"
      using get_column_length [OF assms(2,3)] by simp
    have w: "wf_frame ?out"
      using assms(2) len by (rule fold_result_columns_wf)
    have k: "keeps_columns ?D (h ! df) ?out"
      by (intro fold_result_columns_keeps keeps_columns_refl) simp
    have n: "fst ` set (columns ?out) = fst ` set (columns (h ! df)) \<union> ?D"
      by (rule names_fold_result_columns)
    have t: "fst ` set (columns (h ! df)) \<inter> ?D = {} \<longrightarrow>
             take (length (columns (h ! df))) (columns ?out) = columns (h ! df)"
      using keeps_columns_no_clash [OF k] by blast
    show "\<exists>out.
            process_dataframe h df text_column dictionaries = Inr (h @ [out], length h) \<and>
            (h @ [out]) ! df = h ! df \<and>
            wf_frame out \<and>
            keeps_columns ?D (h ! df) out \<and>
            fst ` set (columns out) = fst ` set (columns (h ! df)) \<union> ?D \<and>
            (fst ` set (columns (h ! df)) \<inter> ?D = {} \<longrightarrow>
               take (length (columns (h ! df))) (columns out) = columns (h ! df))"
      using p u w k n t by (intro exI conjI) assumption+
  qed
qed

theorem batch_processors_keep_other_columns_witness:
  "(0::nat) < length [\<lparr>n_rows = 2, columns = [(''review'', [Str ''good'', NaN])]\<rparr>] \<and>
   wf_frame \<lparr>n_rows = 2, columns = [(''review'', [Str ''good'', NaN])]\<rparr> \<and>
   get_column ([\<lparr>n_rows = 2, columns = [(''review'', [Str ''good'', NaN])]\<rparr>] ! 0) ''review''
     = Inr [Str ''good'', NaN] \<and>
   (\<exists>out.
      process_sentiment_data whole_float_repr [\<lparr>n_rows = 2, columns = [(''review'', [Str ''good'', NaN])]\<rparr>]
        0 ''review'' {''good''} {''bad''}
        = Inr ([\<lparr>n_rows = 2, columns = [(''review'', [Str ''good'', NaN])]\<rparr>] @ [out], 1) \<and>
      wf_frame out \<and>
      take 1 (columns out) = [(''review'', [Str ''good'', NaN])]) \<and>
   (\<exists>out.
      process_dataframe [\<lparr>n_rows = 2, columns = [(''review'', [Str ''good'', NaN])]\<rparr>]
        0 ''review'' [(''exclusive_marketing'', [''vip''])]
        = Inr ([\<lparr>n_rows = 2, columns = [(''review'', [Str ''good'', NaN])]\<rparr>] @ [out], 1) \<and>
      wf_frame out \<and>
      take 1 (columns out) = [(''review'', [Str ''good'', NaN])])"
proof -
  let ?f = "\<lparr>n_rows = 2, columns = [(''review'', [Str ''good'', NaN])]\<rparr>"
  let ?texts = "[Str ''good'', NaN]"
  let ?d = "[(''exclusive_marketing'', [''vip''])]"
  have a: "(0::nat) < length [?f]" by simp
  have w: "wf_frame ?f" by (simp add: wf_frame_def)
  have w0: "wf_frame ([?f] ! 0)" using w by simp
  have g: "get_column ([?f] ! 0) ''review'' = Inr ?texts" by (simp add: get_column_def)
  have c: "\<forall>x \<in> set ?texts. x = NaN \<or> (\<exists>s. x = Str s)" by simp
  have n1: "fst ` set (columns ([?f] ! 0)) \<inter> {''sentiment_score'', ''sentiment_label''} = {}"
    by simp
  have n2: "fst ` set (columns ([?f] ! 0)) \<inter> derived_names (map fst ?d) = {}"
    by (simp add: derived_names_def)
  have l: "length [?f] = 1" "length (columns ([?f] ! 0)) = 1"
    "columns ([?f] ! 0) = [(''review'', ?texts)]"
    by simp_all
  note t = batch_processors_keep_other_columns
    [OF a w0 g, of whole_float_repr "{''good''}" "{''bad''}" ?d]
  from t [THEN conjunct1] obtain out1 where r1:
    "process_sentiment_data whole_float_repr [?f] 0 ''review'' {''good''} {''bad''}
       = Inr ([?f] @ [out1], length [?f])"
    "wf_frame out1"
    "fst ` set (columns ([?f] ! 0)) \<inter> {''sentiment_score'', ''sentiment_label''} = {} \<longrightarrow>
       take (length (columns ([?f] ! 0))) (columns out1) = columns ([?f] ! 0)"
    by (elim conjE exE) (rule that, assumption+)
  from t [THEN conjunct2, THEN mp, OF c] obtain out2 where r2:
    "process_dataframe [?f] 0 ''review'' ?d = Inr ([?f] @ [out2], length [?f])"
    "wf_frame out2"
    "fst ` set (columns ([?f] ! 0)) \<inter> derived_names (map fst ?d) = {} \<longrightarrow>
       take (length (columns ([?f] ! 0))) (columns out2) = columns ([?f] ! 0)"
    by (elim conjE exE) (rule that, assumption+)
  have k1: "take 1 (columns out1) = [(''review'', ?texts)]"
    using r1(3) n1 by (simp only: l simp_thms) simp
  have k2: "take 1 (columns out2) = [(''review'', ?texts)]"
    using r2(3) n2 by (simp only: l simp_thms) simp
  note p1 = r1(1) [unfolded l]
  note p2 = r2(1) [unfolded l]
  show ?thesis
    using a w g p1 r1(2) k1 p2 r2(2) k2 by (intro exI conjI) assumption+
qed

section \<open>The stored terms\<close>











end
